theory Spec2Isabelle
  imports Main
begin

section \<open>Levelled logger of package log (src/log/logger.go)\<close>

text \<open>
  Go strings are byte sequences, so a string is a \<open>char list\<close> whose characters are
  bytes. Go's \<open>int\<close> is only compared with the constants below, never computed
  with, and is modelled by \<open>int\<close>.
\<close>

subsection \<open>Library functions the logger calls: package utf8, unicode and strings\<close>

text \<open>
  These functions belong to the Go standard library, not to the repository. They are
  written out after the library (its current release) so that \<open>logLevelToInt\<close> can be
  evaluated on any byte string. The Unicode case table for runes beyond ASCII is a parameter
  (\<open>upperCase\<close>, the library's \<open>unicode.To(unicode.UpperCase, r)\<close>): every
  theorem below holds for any such table.
\<close>

definition byte :: "char \<Rightarrow> nat" where
  "byte c = of_char c"

definition RuneError :: nat where
  "RuneError = 0xFFFD"

text \<open>\<open>utf8.DecodeRuneInString\<close>: the first rune of a string and its width in bytes;
  an invalid or short encoding yields \<open>(RuneError, 1)\<close>, the empty string
  \<open>(RuneError, 0)\<close>.\<close>

definition cont :: "nat \<Rightarrow> nat \<Rightarrow> char \<Rightarrow> bool" where
  "cont lo hi c = (lo \<le> byte c \<and> byte c \<le> hi)"

text \<open>The bytes after the first one of an encoding of \<open>sz\<close> bytes: the second within
  \<open>lo..hi\<close>, the others within \<open>0x80..0xBF\<close>.\<close>

definition decode_tail :: "nat \<Rightarrow> nat \<Rightarrow> nat \<Rightarrow> nat \<Rightarrow> string \<Rightarrow> nat \<times> nat" where
  "decode_tail b0 sz lo hi s =
     (case s of
        [] \<Rightarrow> (RuneError, 1)
      | c1 # s1 \<Rightarrow>
          if \<not> cont lo hi c1 then (RuneError, 1)
          else if sz \<le> 2 then ((b0 mod 32) * 64 + byte c1 mod 64, 2)
          else (case s1 of
            [] \<Rightarrow> (RuneError, 1)
          | c2 # s2 \<Rightarrow>
              if \<not> cont 0x80 0xBF c2 then (RuneError, 1)
              else if sz \<le> 3
              then ((b0 mod 16) * 4096 + (byte c1 mod 64) * 64 + byte c2 mod 64, 3)
              else (case s2 of
                [] \<Rightarrow> (RuneError, 1)
              | c3 # s3 \<Rightarrow>
                  if \<not> cont 0x80 0xBF c3 then (RuneError, 1)
                  else ((b0 mod 8) * 262144 + (byte c1 mod 64) * 4096
                        + (byte c2 mod 64) * 64 + byte c3 mod 64, 4))))"

definition accept_lo :: "nat \<Rightarrow> nat" where
  "accept_lo b0 = (if b0 = 0xE0 then 0xA0 else if b0 = 0xF0 then 0x90 else 0x80)"

definition accept_hi :: "nat \<Rightarrow> nat" where
  "accept_hi b0 = (if b0 = 0xED then 0x9F else if b0 = 0xF4 then 0x8F else 0xBF)"

definition DecodeRuneInString :: "string \<Rightarrow> nat \<times> nat" where
  "DecodeRuneInString s =
     (case s of
        [] \<Rightarrow> (RuneError, 0)
      | c0 # s' \<Rightarrow>
          let b0 = byte c0 in
          if b0 < 0x80 then (b0, 1)
          else if b0 < 0xC2 \<or> 0xF4 < b0 then (RuneError, 1)
          else
            let sz = (if b0 < 0xE0 then 2 else if b0 < 0xF0 then 3 else 4 :: nat) in
            if length s < sz then (RuneError, 1)
            else decode_tail b0 sz (accept_lo b0) (accept_hi b0) s')"

text \<open>\<open>utf8.AppendRune\<close>: the UTF-8 encoding of a rune; a surrogate or a value beyond
  \<open>U+10FFFF\<close> is written as the encoding of \<open>RuneError\<close>.\<close>

definition EncodeRune :: "nat \<Rightarrow> string" where
  "EncodeRune r =
     (if r \<le> 0x7F then [char_of r]
      else if r \<le> 0x7FF then [char_of (0xC0 + r div 64), char_of (0x80 + r mod 64)]
      else if 0x10FFFF < r \<or> (0xD800 \<le> r \<and> r \<le> 0xDFFF)
        then [char_of (0xEF :: nat), char_of (0xBF :: nat), char_of (0xBD :: nat)]
      else if r \<le> 0xFFFF
        then [char_of (0xE0 + r div 4096), char_of (0x80 + (r div 64) mod 64),
              char_of (0x80 + r mod 64)]
      else [char_of (0xF0 + r div 262144), char_of (0x80 + (r div 4096) mod 64),
            char_of (0x80 + (r div 64) mod 64), char_of (0x80 + r mod 64)])"

text \<open>\<open>unicode.ToUpper\<close>: ASCII is handled in place, any other rune by the case table.\<close>

definition unicode_ToUpper :: "(nat \<Rightarrow> nat) \<Rightarrow> nat \<Rightarrow> nat" where
  "unicode_ToUpper upperCase r =
     (if r \<le> 0x7F then (if 97 \<le> r \<and> r \<le> 122 then r - 32 else r) else upperCase r)"

text \<open>\<open>strings.Map\<close>: every rune of the string, decoded, mapped and encoded again.\<close>

fun Map_runes :: "(nat \<Rightarrow> nat) \<Rightarrow> string \<Rightarrow> string" where
  "Map_runes mapping [] = []"
| "Map_runes mapping (c # s) =
     (case DecodeRuneInString (c # s) of
        (r, width) \<Rightarrow> EncodeRune (mapping r) @ Map_runes mapping (drop (width - 1) s))"

definition upper_byte :: "char \<Rightarrow> char" where
  "upper_byte c = (if 97 \<le> byte c \<and> byte c \<le> 122 then char_of (byte c - 32) else c)"

text \<open>\<open>strings.ToUpper\<close>: a string of ASCII bytes is mapped byte by byte (and returned
  as it is when it has no lower-case letter), any other string rune by rune.\<close>

definition ToUpper :: "(nat \<Rightarrow> nat) \<Rightarrow> string \<Rightarrow> string" where
  "ToUpper upperCase s =
     (let isASCII = list_all (\<lambda>c. byte c < 0x80) s;
          hasLower = list_ex (\<lambda>c. 97 \<le> byte c \<and> byte c \<le> 122) s
      in if isASCII then (if \<not> hasLower then s else map upper_byte s)
         else Map_runes (unicode_ToUpper upperCase) s)"

subsection \<open>Logger level constants\<close>

definition LogOff :: int where "LogOff = 0"
definition LogFatal :: int where "LogFatal = 1"
definition LogError :: int where "LogError = 2"
definition LogWarn :: int where "LogWarn = 3"
definition LogInfo :: int where "LogInfo = 4"
definition LogDebug :: int where "LogDebug = 5"
definition LogTrace :: int where "LogTrace = 6"
definition LogAll :: int where "LogAll = 7"

text \<open>\<open>intToLogLevel\<close>: the switch of the source, case by case, with its final
  \<open>return "ALL"\<close>.\<close>

definition intToLogLevel :: "int \<Rightarrow> string" where
  "intToLogLevel i =
     (if i = LogOff then ''OFF''
      else if i = LogFatal then ''FATAL''
      else if i = LogError then ''ERROR''
      else if i = LogWarn then ''WARN''
      else if i = LogInfo then ''INFO''
      else if i = LogDebug then ''DEBUG''
      else if i = LogTrace then ''TRACE''
      else if i = LogAll then ''ALL''
      else ''ALL'')"

text \<open>\<open>logLevelToInt\<close>: upper-cases the name, then the switch, with its final
  \<open>return -1\<close>.\<close>

definition logLevelToInt :: "(nat \<Rightarrow> nat) \<Rightarrow> string \<Rightarrow> int" where
  "logLevelToInt upperCase lvl =
     (let levelUpper = ToUpper upperCase lvl in
      if levelUpper = ''OFF'' then LogOff
      else if levelUpper = ''FATAL'' then LogFatal
      else if levelUpper = ''ERROR'' then LogError
      else if levelUpper = ''WARN'' then LogWarn
      else if levelUpper = ''INFO'' then LogInfo
      else if levelUpper = ''DEBUG'' then LogDebug
      else if levelUpper = ''TRACE'' then LogTrace
      else if levelUpper = ''ALL'' then LogAll
      else - 1)"

subsection \<open>Library function the logger calls: fmt.Sprintf without operands\<close>

text \<open>
  \<open>printLine\<close> and the line variants hand a string to \<open>fmt.Fprintf\<close> and
  \<open>fmt.Sprintf\<close> as the format, with no operand. What the library returns then is a
  function of the format alone, written out here after \<open>doPrintf\<close> of package fmt
  (the standard library, not the repository) for an empty operand list: text is copied up
  to a \<open>%\<close>; after it come flags, an argument index \<open>[n]\<close>, a width, a precision and
  the verb; \<open>%%\<close> writes a percent sign and every other verb an error tag, since no
  operand is left for it. The argument number stays \<open>0\<close> throughout.
\<close>

definition percentBangString :: string where "percentBangString = ''%!''"
definition missingString :: string where "missingString = ''(MISSING)''"
definition badIndexString :: string where "badIndexString = ''(BADINDEX)''"
definition noVerbString :: string where "noVerbString = ''%!(NOVERB)''"
definition badWidthString :: string where "badWidthString = ''%!(BADWIDTH)''"
definition badPrecString :: string where "badPrecString = ''%!(BADPREC)''"

definition is_flag :: "char \<Rightarrow> bool" where
  "is_flag c = (c = CHR ''#'' \<or> c = CHR ''0'' \<or> c = CHR ''+'' \<or> c = CHR ''-'' \<or> c = CHR '' '')"

definition is_digit :: "char \<Rightarrow> bool" where
  "is_digit c = (48 \<le> byte c \<and> byte c \<le> 57)"

definition tooLarge :: "nat \<Rightarrow> bool" where
  "tooLarge x = (1000000 < x)"

text \<open>\<open>parsenum\<close>: the number at the start of the string, whether there is one, and how
  many bytes it takes; a number that grows too large gives up and takes the whole rest of
  the string.\<close>

fun parsenum_from :: "nat \<Rightarrow> bool \<Rightarrow> nat \<Rightarrow> string \<Rightarrow> nat \<times> bool \<times> nat" where
  "parsenum_from num isnum newi [] = (num, isnum, newi)"
| "parsenum_from num isnum newi (c # s) =
     (if is_digit c then
        (if tooLarge num then (0, False, newi + length (c # s))
         else parsenum_from (num * 10 + (byte c - 48)) True (Suc newi) s)
      else (num, isnum, newi))"

definition parsenum :: "string \<Rightarrow> nat \<times> bool \<times> nat" where
  "parsenum s = parsenum_from 0 False 0 s"

text \<open>\<open>parseArgNumber\<close>, on a string that starts with \<open>[\<close>: the index (the number
  minus one), the bytes to consume and whether a number was parsed.\<close>

definition parseArgNumber :: "string \<Rightarrow> int \<times> nat \<times> bool" where
  "parseArgNumber format =
     (if length format < 3 then (0, 1, False)
      else
        let body = takeWhile (\<lambda>c. c \<noteq> CHR '']'') (tl format) in
        if length body = length (tl format) then (0, 1, False)
        else
          let i = Suc (length body) in
          (case parsenum body of
             (width, ok, newi) \<Rightarrow>
               if \<not> ok \<or> newi \<noteq> length body then (0, i + 1, False)
               else (int width - 1, i + 1, True)))"

text \<open>\<open>argNumber\<close> for \<open>numArgs\<close> operands: the bytes consumed, whether an index was
  found, and whether the argument number is still good.\<close>

definition argNumber :: "string \<Rightarrow> nat \<Rightarrow> nat \<times> bool \<times> bool" where
  "argNumber format numArgs =
     (case format of
        [] \<Rightarrow> (0, False, True)
      | c # _ \<Rightarrow>
          if c \<noteq> CHR ''['' then (0, False, True)
          else (case parseArgNumber format of
                  (index, wid, ok) \<Rightarrow>
                    if ok \<and> 0 \<le> index \<and> index < int numArgs then (wid, True, True)
                    else (wid, ok, False)))"

text \<open>One directive, from the byte after its \<open>%\<close>: what is written and how many
  bytes are consumed.\<close>

definition directive :: "string \<Rightarrow> string \<times> nat" where
  "directive s =
     (let len = length s;
          i0 = length (takeWhile is_flag s)
      in case argNumber (drop i0 s) 0 of (n1, afterIndex1, good1) \<Rightarrow>
      let i1 = i0 + n1 in
      case (if i1 < len \<and> s ! i1 = CHR ''*''
            then (badWidthString, i1 + 1, False, good1)
            else (case parsenum (drop i1 s) of
                    (wid, widPresent, n) \<Rightarrow>
                      ([], i1 + n, afterIndex1, good1 \<and> \<not> (afterIndex1 \<and> widPresent))))
      of (out2, i2, afterIndex2, good2) \<Rightarrow>
      case (if i2 + 1 \<le> len \<and> s ! i2 = CHR ''.''
            then (case argNumber (drop (i2 + 1) s) 0 of
                    (n, afterIndex, good) \<Rightarrow>
                      let i = i2 + 1 + n; g = good2 \<and> \<not> afterIndex2 \<and> good in
                      if i < len \<and> s ! i = CHR ''*''
                      then (badPrecString, i + 1, False, g)
                      else (case parsenum (drop i s) of
                              (prec, precPresent, m) \<Rightarrow> ([], i + m, afterIndex, g)))
            else ([], i2, afterIndex2, good2))
      of (out3, i3, afterIndex3, good3) \<Rightarrow>
      case (if \<not> afterIndex3
            then (case argNumber (drop i3 s) 0 of
                    (n, afterIndex, good) \<Rightarrow> (i3 + n, good3 \<and> good))
            else (i3, good3))
      of (i4, good4) \<Rightarrow>
      if len \<le> i4 then (out2 @ out3 @ noVerbString, len)
      else (case DecodeRuneInString (drop i4 s) of
              (verb, w) \<Rightarrow>
                (out2 @ out3 @
                 (if verb = 37 then ''%''
                  else if \<not> good4 then percentBangString @ EncodeRune verb @ badIndexString
                  else percentBangString @ EncodeRune verb @ missingString),
                 i4 + w)))"

fun doPrintf0 :: "string \<Rightarrow> string" where
  "doPrintf0 [] = []"
| "doPrintf0 (c # s) =
     (if c \<noteq> CHR ''%'' then c # doPrintf0 s
      else (case directive s of (out, n) \<Rightarrow> out @ doPrintf0 (drop n s)))"

text \<open>
  With operands the result depends on how the library prints Go values; that part is a
  parameter of the model (\<open>format_operands\<close>), as is the reading of the clock
  (\<open>clock\<close>, the value of \<open>time.Now().Format(time.RFC3339)\<close> at the call).
\<close>

record 'v go_runtime =
  format_operands :: "string \<Rightarrow> 'v list \<Rightarrow> string"
  clock :: string

definition Sprintf :: "'v go_runtime \<Rightarrow> string \<Rightarrow> 'v list \<Rightarrow> string" where
  "Sprintf rt format a = (if a = [] then doPrintf0 format else format_operands rt format a)"

subsection \<open>Configuration, logger objects and the world they act on\<close>

record LoggerConfig =
  Prefix :: string
  LogLevel :: string
  AddTimeStamp :: bool

definition DefaultLoggerConfig :: LoggerConfig where
  "DefaultLoggerConfig = \<lparr>Prefix = ''service'', LogLevel = ''INFO'', AddTimeStamp = True\<rparr>"

text \<open>
  A \<open>Logger\<close> holds an \<open>io.Writer\<close> and a \<open>*RiemannClient\<close>. Both are references to
  objects outside the logger: each is modelled by the identity of the object it refers to,
  \<open>None\<close> for \<open>nil\<close>.
\<close>

record Logger =
  stream :: "nat option"
  config :: LoggerConfig
  level :: int
  riemannClient :: "nat option"

text \<open>Modelled from the spec: the type \<open>RiemannEvent\<close> is declared outside
  src/log/logger.go; the spec gives the event the three fields the logger sets.\<close>

record RiemannEvent =
  Service :: string
  State :: string
  Description :: string

text \<open>
  Loggers are heap objects handled through \<open>*Logger\<close>: \<open>loggers\<close> is the heap, a
  pointer is an index into it, and an index beyond the heap stands for \<open>nil\<close>. A new
  object is appended, so its address is fresh. \<open>writes\<close> lists the \<open>Write\<close> calls
  received by the sinks (sink, bytes), \<open>events\<close> the \<open>SendEvent\<close> calls received by
  the clients (client, event), both in order.
\<close>

record world =
  loggers :: "Logger list"
  writes :: "(nat \<times> string) list"
  events :: "(nat \<times> RiemannEvent) list"

datatype panic = NilPointerDereference

text \<open>Modelled from the spec: the error value \<open>ErrClientNil\<close> is declared outside
  src/log/logger.go; the spec calls it the NilClient error.\<close>

datatype error = ErrClientNil

definition deref :: "world \<Rightarrow> nat \<Rightarrow> Logger option" where
  "deref w l = (if l < length (loggers w) then Some (loggers w ! l) else None)"

text \<open>Modelled from the spec: the method \<open>RiemannClient.SendEvent\<close> is declared outside
  src/log/logger.go; the spec describes one \<open>submit(Event)\<close> operation whose outcome the
  logger does not observe. The model records the submission.\<close>

definition SendEvent :: "nat \<Rightarrow> RiemannEvent \<Rightarrow> world \<Rightarrow> world" where
  "SendEvent client ev w = w\<lparr>events := events w @ [(client, ev)]\<rparr>"

text \<open>\<open>fmt.Fprintf\<close>: formats, then calls \<open>Write\<close> on the writer once; a \<open>nil\<close>
  writer panics.\<close>

definition Fprintf ::
  "'v go_runtime \<Rightarrow> nat option \<Rightarrow> string \<Rightarrow> 'v list \<Rightarrow> world \<Rightarrow> panic + world" where
  "Fprintf rt wr format a w =
     (case wr of
        None \<Rightarrow> Inl NilPointerDereference
      | Some sink \<Rightarrow> Inr (w\<lparr>writes := writes w @ [(sink, Sprintf rt format a)]\<rparr>))"

definition and_then :: "panic + world \<Rightarrow> (world \<Rightarrow> panic + world) \<Rightarrow> panic + world" where
  "and_then r f = (case r of Inl p \<Rightarrow> Inl p | Inr w \<Rightarrow> f w)"

subsection \<open>Construction, derivation and registration\<close>

definition NewLogger ::
  "(nat \<Rightarrow> nat) \<Rightarrow> nat option \<Rightarrow> LoggerConfig \<Rightarrow> world \<Rightarrow> nat \<times> world" where
  "NewLogger upperCase strm cfg w =
     (let logger = \<lparr>stream = strm, config = cfg,
                     level = logLevelToInt upperCase (LogLevel cfg), riemannClient = None\<rparr>
      in (length (loggers w), w\<lparr>loggers := loggers w @ [logger]\<rparr>))"

text \<open>\<open>fmt.Sprintf("%v%v", a, b)\<close> on two strings is their concatenation.\<close>

definition NewModule :: "nat \<Rightarrow> string \<Rightarrow> world \<Rightarrow> panic + (nat \<times> world)" where
  "NewModule l prefix w =
     (case deref w l of
        None \<Rightarrow> Inl NilPointerDereference
      | Some lg \<Rightarrow>
          let cfg = (config lg)\<lparr>Prefix := Prefix (config lg) @ prefix\<rparr>;
              logger = \<lparr>stream = stream lg, config = cfg, level = level lg,
                        riemannClient = riemannClient lg\<rparr>
          in Inr (length (loggers w), w\<lparr>loggers := loggers w @ [logger]\<rparr>))"

definition UseRiemann :: "nat \<Rightarrow> nat option \<Rightarrow> world \<Rightarrow> panic + (error option \<times> world)" where
  "UseRiemann l client w =
     (case client of
        None \<Rightarrow> Inr (Some ErrClientNil, w)
      | Some c \<Rightarrow>
          (case deref w l of
             None \<Rightarrow> Inl NilPointerDereference
           | Some lg \<Rightarrow>
               Inr (None, w\<lparr>loggers := (loggers w)[l := lg\<lparr>riemannClient := Some c\<rparr>]\<rparr>)))"

subsection \<open>Printing and forwarding\<close>

text \<open>\<open>fmt.Sprintf("%v | ", t)\<close> and \<open>fmt.Sprintf("%v%v | %v | %v", ...)\<close> on strings
  are concatenations; their result is the format handed to \<open>fmt.Fprintf\<close>.\<close>

definition printf ::
  "'v go_runtime \<Rightarrow> nat \<Rightarrow> string \<Rightarrow> string \<Rightarrow> 'v list \<Rightarrow> world \<Rightarrow> panic + world" where
  "printf rt l message lvl other w =
     (case deref w l of
        None \<Rightarrow> Inl NilPointerDereference
      | Some lg \<Rightarrow>
          let timestampStr = (if AddTimeStamp (config lg) then clock rt @ '' | '' else [])
          in Fprintf rt (stream lg)
               (timestampStr @ lvl @ '' | '' @ Prefix (config lg) @ '' | '' @ message) other w)"

definition printLine ::
  "'v go_runtime \<Rightarrow> nat \<Rightarrow> string \<Rightarrow> string \<Rightarrow> world \<Rightarrow> panic + world" where
  "printLine rt l message lvl w =
     (case deref w l of
        None \<Rightarrow> Inl NilPointerDereference
      | Some lg \<Rightarrow>
          let timestampStr = (if AddTimeStamp (config lg) then clock rt @ '' | '' else [])
          in Fprintf rt (stream lg)
               (timestampStr @ lvl @ '' | '' @ Prefix (config lg) @ '' | '' @ message
                @ [CHR 0x0A]) [] w)"

definition sendRiemann ::
  "'v go_runtime \<Rightarrow> nat \<Rightarrow> string \<Rightarrow> string \<Rightarrow> 'v list \<Rightarrow> world \<Rightarrow> panic + world" where
  "sendRiemann rt l message lvl other w =
     (case deref w l of
        None \<Rightarrow> Inl NilPointerDereference
      | Some lg \<Rightarrow>
          (case riemannClient lg of
             None \<Rightarrow> Inr w
           | Some client \<Rightarrow>
               Inr (SendEvent client
                      \<lparr>Service = Prefix (config lg), State = lvl,
                       Description = Sprintf rt message other\<rparr> w)))"

subsection \<open>The twelve print operations\<close>

definition Fatalf :: "'v go_runtime \<Rightarrow> nat \<Rightarrow> string \<Rightarrow> 'v list \<Rightarrow> world \<Rightarrow> panic + world" where
  "Fatalf rt l message other w =
     (case deref w l of
        None \<Rightarrow> Inl NilPointerDereference
      | Some lg \<Rightarrow>
          and_then (if LogFatal \<le> level lg then printf rt l message ''FATAL'' other w else Inr w)
            (sendRiemann rt l message ''FATAL'' other))"

definition Errorf :: "'v go_runtime \<Rightarrow> nat \<Rightarrow> string \<Rightarrow> 'v list \<Rightarrow> world \<Rightarrow> panic + world" where
  "Errorf rt l message other w =
     (case deref w l of
        None \<Rightarrow> Inl NilPointerDereference
      | Some lg \<Rightarrow>
          and_then (if LogError \<le> level lg then printf rt l message ''ERROR'' other w else Inr w)
            (sendRiemann rt l message ''ERROR'' other))"

definition Warnf :: "'v go_runtime \<Rightarrow> nat \<Rightarrow> string \<Rightarrow> 'v list \<Rightarrow> world \<Rightarrow> panic + world" where
  "Warnf rt l message other w =
     (case deref w l of
        None \<Rightarrow> Inl NilPointerDereference
      | Some lg \<Rightarrow>
          and_then (if LogWarn \<le> level lg then printf rt l message ''WARN'' other w else Inr w)
            (sendRiemann rt l message ''WARN'' other))"

definition Infof :: "'v go_runtime \<Rightarrow> nat \<Rightarrow> string \<Rightarrow> 'v list \<Rightarrow> world \<Rightarrow> panic + world" where
  "Infof rt l message other w =
     (case deref w l of
        None \<Rightarrow> Inl NilPointerDereference
      | Some lg \<Rightarrow>
          and_then (if LogInfo \<le> level lg then printf rt l message ''INFO'' other w else Inr w)
            (sendRiemann rt l message ''INFO'' other))"

definition Debugf :: "'v go_runtime \<Rightarrow> nat \<Rightarrow> string \<Rightarrow> 'v list \<Rightarrow> world \<Rightarrow> panic + world" where
  "Debugf rt l message other w =
     (case deref w l of
        None \<Rightarrow> Inl NilPointerDereference
      | Some lg \<Rightarrow>
          if LogDebug \<le> level lg then printf rt l message ''DEBUG'' other w else Inr w)"

definition Tracef :: "'v go_runtime \<Rightarrow> nat \<Rightarrow> string \<Rightarrow> 'v list \<Rightarrow> world \<Rightarrow> panic + world" where
  "Tracef rt l message other w =
     (case deref w l of
        None \<Rightarrow> Inl NilPointerDereference
      | Some lg \<Rightarrow>
          if LogTrace \<le> level lg then printf rt l message ''TRACE'' other w else Inr w)"

definition Fatalln :: "'v go_runtime \<Rightarrow> nat \<Rightarrow> string \<Rightarrow> world \<Rightarrow> panic + world" where
  "Fatalln rt l message w =
     (case deref w l of
        None \<Rightarrow> Inl NilPointerDereference
      | Some lg \<Rightarrow>
          and_then (if LogFatal \<le> level lg then printLine rt l message ''FATAL'' w else Inr w)
            (sendRiemann rt l message ''FATAL'' []))"

definition Errorln :: "'v go_runtime \<Rightarrow> nat \<Rightarrow> string \<Rightarrow> world \<Rightarrow> panic + world" where
  "Errorln rt l message w =
     (case deref w l of
        None \<Rightarrow> Inl NilPointerDereference
      | Some lg \<Rightarrow>
          and_then (if LogError \<le> level lg then printLine rt l message ''ERROR'' w else Inr w)
            (sendRiemann rt l message ''ERROR'' []))"

definition Warnln :: "'v go_runtime \<Rightarrow> nat \<Rightarrow> string \<Rightarrow> world \<Rightarrow> panic + world" where
  "Warnln rt l message w =
     (case deref w l of
        None \<Rightarrow> Inl NilPointerDereference
      | Some lg \<Rightarrow>
          and_then (if LogWarn \<le> level lg then printLine rt l message ''WARN'' w else Inr w)
            (sendRiemann rt l message ''WARN'' []))"

definition Infoln :: "'v go_runtime \<Rightarrow> nat \<Rightarrow> string \<Rightarrow> world \<Rightarrow> panic + world" where
  "Infoln rt l message w =
     (case deref w l of
        None \<Rightarrow> Inl NilPointerDereference
      | Some lg \<Rightarrow>
          and_then (if LogInfo \<le> level lg then printLine rt l message ''INFO'' w else Inr w)
            (sendRiemann rt l message ''INFO'' []))"

definition Debugln :: "'v go_runtime \<Rightarrow> nat \<Rightarrow> string \<Rightarrow> world \<Rightarrow> panic + world" where
  "Debugln rt l message w =
     (case deref w l of
        None \<Rightarrow> Inl NilPointerDereference
      | Some lg \<Rightarrow>
          if LogDebug \<le> level lg then printLine rt l message ''DEBUG'' w else Inr w)"

definition Traceln :: "'v go_runtime \<Rightarrow> nat \<Rightarrow> string \<Rightarrow> world \<Rightarrow> panic + world" where
  "Traceln rt l message w =
     (case deref w l of
        None \<Rightarrow> Inl NilPointerDereference
      | Some lg \<Rightarrow>
          if LogTrace \<le> level lg then printLine rt l message ''TRACE'' w else Inr w)"

subsection \<open>The six severities and their operations\<close>

datatype severity = Fatal | Error | Warn | Info | Debug | Trace

fun rank :: "severity \<Rightarrow> int" where
  "rank Fatal = LogFatal"
| "rank Error = LogError"
| "rank Warn = LogWarn"
| "rank Info = LogInfo"
| "rank Debug = LogDebug"
| "rank Trace = LogTrace"

text \<open>The level name each operation passes to \<open>printf\<close>, \<open>printLine\<close> and
  \<open>sendRiemann\<close>.\<close>

fun level_name :: "severity \<Rightarrow> string" where
  "level_name Fatal = ''FATAL''"
| "level_name Error = ''ERROR''"
| "level_name Warn = ''WARN''"
| "level_name Info = ''INFO''"
| "level_name Debug = ''DEBUG''"
| "level_name Trace = ''TRACE''"

fun forwards :: "severity \<Rightarrow> bool" where
  "forwards Debug = False"
| "forwards Trace = False"
| "forwards _ = True"

fun emitf ::
  "severity \<Rightarrow> 'v go_runtime \<Rightarrow> nat \<Rightarrow> string \<Rightarrow> 'v list \<Rightarrow> world \<Rightarrow> panic + world" where
  "emitf Fatal = Fatalf"
| "emitf Error = Errorf"
| "emitf Warn = Warnf"
| "emitf Info = Infof"
| "emitf Debug = Debugf"
| "emitf Trace = Tracef"

fun emitln :: "severity \<Rightarrow> 'v go_runtime \<Rightarrow> nat \<Rightarrow> string \<Rightarrow> world \<Rightarrow> panic + world" where
  "emitln Fatal = Fatalln"
| "emitln Error = Errorln"
| "emitln Warn = Warnln"
| "emitln Info = Infoln"
| "emitln Debug = Debugln"
| "emitln Trace = Traceln"

text \<open>What \<open>printf\<close> and \<open>printLine\<close> hand to \<open>fmt.Fprintf\<close> as the format.\<close>

definition rendered :: "'v go_runtime \<Rightarrow> Logger \<Rightarrow> string \<Rightarrow> string \<Rightarrow> string" where
  "rendered rt lg lvl message =
     (if AddTimeStamp (config lg) then clock rt @ '' | '' else [])
     @ lvl @ '' | '' @ Prefix (config lg) @ '' | '' @ message"

subsection \<open>Case variants of a string\<close>

text \<open>
  Two strings are case variants of each other when they have the same length and agree
  byte by byte up to the case of the letters \<open>A..Z\<close> and \<open>a..z\<close>. The definition
  does not mention \<open>ToUpper\<close>.
\<close>

definition is_letter :: "char \<Rightarrow> bool" where
  "is_letter c = ((65 \<le> byte c \<and> byte c \<le> 90) \<or> (97 \<le> byte c \<and> byte c \<le> 122))"

definition same_letter :: "char \<Rightarrow> char \<Rightarrow> bool" where
  "same_letter c d =
     (c = d \<or> (is_letter c \<and> is_letter d \<and> (byte c = byte d + 32 \<or> byte d = byte c + 32)))"

definition case_variant :: "string \<Rightarrow> string \<Rightarrow> bool" where
  "case_variant s t = list_all2 same_letter s t"

subsection \<open>Concrete configurations, loggers and worlds of the examples\<close>

text \<open>The eight names \<open>logLevelToInt\<close> recognizes after upper-casing.\<close>

definition level_names :: "string list" where
  "level_names = [''OFF'', ''FATAL'', ''ERROR'', ''WARN'', ''INFO'', ''DEBUG'', ''TRACE'', ''ALL'']"

text \<open>A world with no logger, in which nothing has been written or sent.\<close>

definition empty_world :: world where
  "empty_world = \<lparr>loggers = [], writes = [], events = []\<rparr>"

text \<open>The runtime of the examples. Every example formats without operands, so
  \<open>format_operands\<close> is never consulted there.\<close>

definition demo_rt :: "nat go_runtime" where
  "demo_rt = \<lparr>format_operands = (\<lambda>format a. format), clock = ''2014-11-01T12:00:00Z''\<rparr>"

text \<open>The configuration of the end-to-end example: prefix \<open>svc\<close>, level \<open>WARN\<close>, no
  timestamp; the world after \<open>NewLogger\<close> on sink \<open>0\<close>, and the logger it holds.\<close>

definition svc_config :: LoggerConfig where
  "svc_config = \<lparr>Prefix = ''svc'', LogLevel = ''WARN'', AddTimeStamp = False\<rparr>"

definition svc_world :: world where
  "svc_world = snd (NewLogger (\<lambda>r. r) (Some 0) svc_config empty_world)"

definition svc_logger :: Logger where
  "svc_logger = \<lparr>stream = Some 0, config = svc_config, level = 3, riemannClient = None\<rparr>"

text \<open>The same logger with the forwarding client \<open>7\<close> attached.\<close>

definition monitored_logger :: Logger where
  "monitored_logger = svc_logger\<lparr>riemannClient := Some 7\<rparr>"

definition monitored_world :: world where
  "monitored_world = \<lparr>loggers = [monitored_logger], writes = [], events = []\<rparr>"

text \<open>A configuration whose level name is not one of the eight.\<close>

definition verbose_config :: LoggerConfig where
  "verbose_config = \<lparr>Prefix = ''svc'', LogLevel = ''verbose'', AddTimeStamp = False\<rparr>"

definition verbose_world :: world where
  "verbose_world = snd (NewLogger (\<lambda>r. r) (Some 0) verbose_config empty_world)"

text \<open>A parent logger at level \<open>INFO\<close> with the forwarding client \<open>1\<close> attached.\<close>

definition parent_logger :: Logger where
  "parent_logger =
     \<lparr>stream = Some 0,
      config = \<lparr>Prefix = ''svc'', LogLevel = ''INFO'', AddTimeStamp = False\<rparr>,
      level = 4, riemannClient = Some 1\<rparr>"

definition parent_world :: world where
  "parent_world = \<lparr>loggers = [parent_logger], writes = [], events = []\<rparr>"

section \<open>Properties of the rank conversion\<close>

lemmas level_consts =
  LogOff_def LogFatal_def LogError_def LogWarn_def LogInfo_def LogDebug_def LogTrace_def
  LogAll_def

subsection \<open>Upper-casing does not see the case of ASCII letters\<close>

lemma byte_char_of: "n < 256 \<Longrightarrow> byte (char_of (n::nat)) = n"
  by (simp add: byte_def)

lemma byte_inj: "byte c = byte d \<Longrightarrow> c = d"
  by (simp add: byte_def)

lemma same_letter_upper: "same_letter c d \<Longrightarrow> upper_byte c = upper_byte d"
  unfolding same_letter_def is_letter_def upper_byte_def
  by (auto intro!: byte_inj simp: byte_char_of)

lemma same_letter_ascii: "same_letter c d \<Longrightarrow> (byte c < 128) = (byte d < 128)"
  unfolding same_letter_def is_letter_def by auto

lemma same_letter_high: "same_letter c d \<Longrightarrow> 128 \<le> byte c \<Longrightarrow> c = d"
  unfolding same_letter_def is_letter_def by auto

lemma same_letter_rune:
  "same_letter c d \<Longrightarrow> byte c < 128 \<Longrightarrow>
   unicode_ToUpper U (byte c) = unicode_ToUpper U (byte d)"
  unfolding same_letter_def is_letter_def unicode_ToUpper_def by auto

lemma cont_variant_eq:
  "same_letter a b \<Longrightarrow> 128 \<le> lo \<Longrightarrow> cont lo hi b = cont lo hi a"
  unfolding same_letter_def is_letter_def cont_def by auto

lemma cont_variant_same:
  "same_letter a b \<Longrightarrow> 128 \<le> lo \<Longrightarrow> cont lo hi a \<Longrightarrow> b = a"
  unfolding same_letter_def is_letter_def cont_def by auto

lemma upper_no_lower:
  "\<not> list_ex (\<lambda>c. 97 \<le> byte c \<and> byte c \<le> 122) s \<Longrightarrow> map upper_byte s = s"
  by (induction s) (auto simp: upper_byte_def)

lemma ToUpper_ascii: "list_all (\<lambda>c. byte c < 0x80) s \<Longrightarrow> ToUpper U s = map upper_byte s"
  by (simp add: ToUpper_def upper_no_lower)

lemma ToUpper_nonascii:
  "\<not> list_all (\<lambda>c. byte c < 0x80) s \<Longrightarrow> ToUpper U s = Map_runes (unicode_ToUpper U) s"
  by (simp add: ToUpper_def)

lemma case_variant_ascii:
  "case_variant s t \<Longrightarrow>
   list_all (\<lambda>c. byte c < 0x80) s = list_all (\<lambda>c. byte c < 0x80) t"
  unfolding case_variant_def
  by (induction rule: list_all2_induct) (auto dest: same_letter_ascii)

lemma case_variant_map_upper: "case_variant s t \<Longrightarrow> map upper_byte s = map upper_byte t"
  unfolding case_variant_def
  by (induction rule: list_all2_induct) (auto dest: same_letter_upper)

text \<open>A continuation byte is never an ASCII letter, so the decoder takes the same
  decisions on both strings, and where it accepts a byte the two strings agree on it.\<close>

lemma decode_tail_variant:
  assumes st: "list_all2 same_letter s t" and lo: "128 \<le> lo"
  shows "decode_tail b0 sz lo hi s = decode_tail b0 sz lo hi t"
proof (cases s)
  case Nil
  with st show ?thesis by simp
next
  case s: (Cons c1 s1)
  then obtain d1 t1 where t: "t = d1 # t1" and l1: "same_letter c1 d1"
    and r1: "list_all2 same_letter s1 t1"
    using st by (auto simp: list_all2_Cons1)
  show ?thesis
  proof (cases "cont lo hi c1")
    case False
    then have "\<not> cont lo hi d1" using cont_variant_eq[OF l1 lo, of hi] by simp
    with False s t show ?thesis by (simp add: decode_tail_def)
  next
    case k1: True
    then have d1: "d1 = c1" using cont_variant_same[OF l1 lo] by simp
    show ?thesis
    proof (cases s1)
      case Nil
      with r1 have "t1 = []" by simp
      with Nil s t d1 show ?thesis by (simp add: decode_tail_def)
    next
      case s1: (Cons c2 s2)
      then obtain d2 t2 where t1: "t1 = d2 # t2" and l2: "same_letter c2 d2"
        and r2: "list_all2 same_letter s2 t2"
        using r1 by (auto simp: list_all2_Cons1)
      show ?thesis
      proof (cases "cont 0x80 0xBF c2")
        case False
        then have "\<not> cont 0x80 0xBF d2"
          using cont_variant_eq[OF l2, of "0x80" "0xBF"] by simp
        with False s t d1 s1 t1 show ?thesis by (simp add: decode_tail_def)
      next
        case k2: True
        then have d2: "d2 = c2" using cont_variant_same[OF l2, of "0x80" "0xBF"] by simp
        show ?thesis
        proof (cases s2)
          case Nil
          with r2 have "t2 = []" by simp
          with Nil s t d1 s1 t1 d2 show ?thesis by (simp add: decode_tail_def)
        next
          case s2: (Cons c3 s3)
          then obtain d3 t3 where t2: "t2 = d3 # t3" and l3: "same_letter c3 d3"
            using r2 by (auto simp: list_all2_Cons1)
          show ?thesis
          proof (cases "cont 0x80 0xBF c3")
            case False
            then have "\<not> cont 0x80 0xBF d3"
              using cont_variant_eq[OF l3, of "0x80" "0xBF"] by simp
            with False s t d1 s1 t1 d2 s2 t2 show ?thesis by (simp add: decode_tail_def)
          next
            case True
            then have "d3 = c3" using cont_variant_same[OF l3, of "0x80" "0xBF"] by simp
            with s t d1 s1 t1 d2 s2 t2 show ?thesis by (simp add: decode_tail_def)
          qed
        qed
      qed
    qed
  qed
qed

lemma accept_lo_ge: "128 \<le> accept_lo b"
  by (simp add: accept_lo_def)

lemma decode_high:
  assumes "list_all2 same_letter s t" and "128 \<le> byte c"
  shows "DecodeRuneInString (c # s) = DecodeRuneInString (c # t)"
  using decode_tail_variant[OF assms(1) accept_lo_ge] list_all2_lengthD[OF assms(1)]
  by (simp add: DecodeRuneInString_def Let_def)

lemma decode_ascii: "byte c < 128 \<Longrightarrow> DecodeRuneInString (c # s) = (byte c, 1)"
  by (simp add: DecodeRuneInString_def)

lemma Map_runes_variant:
  "list_all2 same_letter s t \<Longrightarrow>
   Map_runes (unicode_ToUpper U) s = Map_runes (unicode_ToUpper U) t"
proof (induction s arbitrary: t rule: length_induct)
  case (1 s)
  show ?case
  proof (cases s)
    case Nil
    with 1(2) show ?thesis by simp
  next
    case (Cons c s')
    then obtain d t' where t: "t = d # t'" and cd: "same_letter c d"
      and r: "list_all2 same_letter s' t'"
      using 1(2) by (auto simp: list_all2_Cons1)
    show ?thesis
    proof (cases "byte c < 128")
      case True
      then have "byte d < 128" using same_letter_ascii[OF cd] by simp
      moreover have "Map_runes (unicode_ToUpper U) s' = Map_runes (unicode_ToUpper U) t'"
        using 1(1) r Cons by simp
      ultimately show ?thesis
        using True Cons t same_letter_rune[OF cd True] by (simp add: decode_ascii)
    next
      case False
      then have dc: "d = c" using same_letter_high[OF cd] by simp
      have dec: "DecodeRuneInString (c # s') = DecodeRuneInString (c # t')"
        using decode_high[OF r] False by simp
      obtain rn w where rw: "DecodeRuneInString (c # t') = (rn, w)"
        by (cases "DecodeRuneInString (c # t')")
      have "list_all2 same_letter (drop (w - 1) s') (drop (w - 1) t')"
        using r by (rule list_all2_dropI)
      then have "Map_runes (unicode_ToUpper U) (drop (w - 1) s')
                 = Map_runes (unicode_ToUpper U) (drop (w - 1) t')"
        using 1(1) Cons by simp
      then show ?thesis
        using Cons t dc dec rw by simp
    qed
  qed
qed

lemma ToUpper_variant:
  assumes cv: "case_variant s t"
  shows "ToUpper U s = ToUpper U t"
proof (cases "list_all (\<lambda>c. byte c < 0x80) s")
  case True
  then have "list_all (\<lambda>c. byte c < 0x80) t" using cv case_variant_ascii by blast
  then show ?thesis using True cv by (simp add: ToUpper_ascii case_variant_map_upper)
next
  case False
  then have "\<not> list_all (\<lambda>c. byte c < 0x80) t" using cv case_variant_ascii by blast
  then show ?thesis
    using False cv Map_runes_variant[of s t U]
    by (simp add: ToUpper_nonascii case_variant_def)
qed

lemma logLevelToInt_names:
  "logLevelToInt U ''OFF'' = 0" "logLevelToInt U ''FATAL'' = 1"
  "logLevelToInt U ''ERROR'' = 2" "logLevelToInt U ''WARN'' = 3"
  "logLevelToInt U ''INFO'' = 4" "logLevelToInt U ''DEBUG'' = 5"
  "logLevelToInt U ''TRACE'' = 6" "logLevelToInt U ''ALL'' = 7"
  by (simp_all add: logLevelToInt_def ToUpper_def byte_def level_consts)

subsection \<open>The claims about the conversions\<close>

text \<open>
  C7. For every rank \<open>r\<close> of the eight defined ranks \<open>0..7\<close>, converting \<open>r\<close> to its
  name and the name back to a rank yields \<open>r\<close> again. The law is stated on the defined
  ranks only.
\<close>

theorem level_round_trip:
  assumes "r \<in> {0..7}"
  shows "logLevelToInt U (intToLogLevel r) = r"
proof -
  from assms have "r = 0 \<or> r = 1 \<or> r = 2 \<or> r = 3 \<or> r = 4 \<or> r = 5 \<or> r = 6 \<or> r = 7"
    by auto
  then show ?thesis
    by (elim disjE) (simp_all add: intToLogLevel_def level_consts logLevelToInt_names)
qed

theorem level_round_trip_witness:
  "(3::int) \<in> {0..7} \<and> intToLogLevel 3 = ''WARN''
   \<and> logLevelToInt (\<lambda>r. r) (intToLogLevel 3) = 3"
  using level_round_trip[of 3 "\<lambda>r. r"] by (simp add: intToLogLevel_def level_consts)

text \<open>
  C8. The name-to-rank conversion is case-insensitive: for every string \<open>s\<close> and every
  case variant \<open>t\<close> of \<open>s\<close>, \<open>logLevelToInt s\<close> equals \<open>logLevelToInt t\<close>; in
  particular \<open>info\<close>, \<open>INFO\<close> and \<open>Info\<close> have the same rank. The strings are
  arbitrary byte strings and the Unicode case table is arbitrary.
\<close>

theorem logLevelToInt_case_insensitive:
  assumes "case_variant s t"
  shows "logLevelToInt U s = logLevelToInt U t"
  by (simp add: logLevelToInt_def ToUpper_variant[OF assms, of U])

theorem logLevelToInt_case_insensitive_witness:
  "case_variant ''info'' ''INFO'' \<and> case_variant ''Info'' ''INFO''
   \<and> logLevelToInt (\<lambda>r. r) ''info'' = logLevelToInt (\<lambda>r. r) ''INFO''
   \<and> logLevelToInt (\<lambda>r. r) ''Info'' = logLevelToInt (\<lambda>r. r) ''INFO''
   \<and> logLevelToInt (\<lambda>r. r) ''INFO'' = 4"
proof -
  have a: "case_variant ''info'' ''INFO''"
    by (simp add: case_variant_def same_letter_def is_letter_def byte_def)
  have b: "case_variant ''Info'' ''INFO''"
    by (simp add: case_variant_def same_letter_def is_letter_def byte_def)
  show ?thesis
    using a b logLevelToInt_case_insensitive[OF a, of "\<lambda>r. r"]
      logLevelToInt_case_insensitive[OF b, of "\<lambda>r. r"]
    by (simp add: logLevelToInt_names)
qed

text \<open>
  C9. The rank-to-name conversion is total: for every integer rank outside \<open>0..7\<close> it
  returns \<open>ALL\<close> rather than failing, and for each of the eight defined ranks it
  returns that rank's name.
\<close>

theorem intToLogLevel_total:
  "(r < 0 \<or> 7 < r \<longrightarrow> intToLogLevel r = ''ALL'')
   \<and> intToLogLevel 0 = ''OFF'' \<and> intToLogLevel 1 = ''FATAL''
   \<and> intToLogLevel 2 = ''ERROR'' \<and> intToLogLevel 3 = ''WARN''
   \<and> intToLogLevel 4 = ''INFO'' \<and> intToLogLevel 5 = ''DEBUG''
   \<and> intToLogLevel 6 = ''TRACE'' \<and> intToLogLevel 7 = ''ALL''"
  by (simp add: intToLogLevel_def level_consts)

theorem intToLogLevel_total_witness:
  "(7::int) < 8 \<and> intToLogLevel 8 = ''ALL'' \<and> intToLogLevel (- 1) = ''ALL''"
  using intToLogLevel_total[of 8] intToLogLevel_total[of "- 1"] by simp

section \<open>Properties of the logger\<close>

subsection \<open>What each operation does to the world\<close>

text \<open>
  An operation on an allocated logger, whose sink is present whenever the console gate
  passes, does not panic; it appends to \<open>writes\<close> and \<open>events\<close> and leaves the loggers
  as they are.
\<close>

lemma and_then_Inr: "and_then (Inr w) f = f w"
  by (simp add: and_then_def)

lemma deref_writes: "deref (w\<lparr>writes := x\<rparr>) l = deref w l"
  by (simp add: deref_def)

lemma deref_events: "deref (w\<lparr>events := x\<rparr>) l = deref w l"
  by (simp add: deref_def)

lemma printf_world:
  assumes "deref w l = Some lg" and "stream lg = Some s"
  shows "printf rt l msg lvl other w =
         Inr (w\<lparr>writes := writes w @ [(s, Sprintf rt (rendered rt lg lvl msg) other)]\<rparr>)"
  using assms by (simp add: printf_def Fprintf_def rendered_def)

lemma printLine_world:
  assumes "deref w l = Some lg" and "stream lg = Some s"
  shows "printLine rt l msg lvl w =
         Inr (w\<lparr>writes := writes w @ [(s, Sprintf rt (rendered rt lg lvl (msg @ [CHR 0x0A])) [])]\<rparr>)"
  using assms by (simp add: printLine_def Fprintf_def rendered_def)

lemma sendRiemann_world:
  assumes "deref w l = Some lg"
  shows "sendRiemann rt l msg lvl other w =
         Inr (w\<lparr>events := events w @
                (case riemannClient lg of
                   None \<Rightarrow> []
                 | Some c \<Rightarrow> [(c, \<lparr>Service = Prefix (config lg), State = lvl,
                                  Description = Sprintf rt msg other\<rparr>)])\<rparr>)"
  using assms by (simp add: sendRiemann_def SendEvent_def split: option.splits)

lemma emitf_world:
  assumes d: "deref w l = Some lg" and s: "rank L \<le> level lg \<Longrightarrow> stream lg = Some s"
  shows "emitf L rt l msg other w =
         Inr (w\<lparr>writes := writes w @
                (if rank L \<le> level lg
                 then [(s, Sprintf rt (rendered rt lg (level_name L) msg) other)] else []),
               events := events w @
                (if L = Debug \<or> L = Trace then []
                 else (case riemannClient lg of
                         None \<Rightarrow> []
                       | Some c \<Rightarrow> [(c, \<lparr>Service = Prefix (config lg), State = level_name L,
                                        Description = Sprintf rt msg other\<rparr>)]))\<rparr>)"
proof (cases "rank L \<le> level lg")
  case True
  then have st: "stream lg = Some s" by (rule s)
  note p = printf_world[OF d st]
  have d': "deref (w\<lparr>writes := x\<rparr>) l = Some lg" for x
    using d by (simp add: deref_writes)
  show ?thesis
    using True d
    by (cases L)
       (simp_all add: Fatalf_def Errorf_def Warnf_def Infof_def Debugf_def Tracef_def p
          and_then_Inr sendRiemann_world[OF d'] split: option.splits)
next
  case False
  show ?thesis
    using False d
    by (cases L)
       (simp_all add: Fatalf_def Errorf_def Warnf_def Infof_def Debugf_def Tracef_def
          and_then_Inr sendRiemann_world[OF d] split: option.splits)
qed

lemma emitln_world:
  assumes d: "deref w l = Some lg" and s: "rank L \<le> level lg \<Longrightarrow> stream lg = Some s"
  shows "emitln L rt l msg w =
         Inr (w\<lparr>writes := writes w @
                (if rank L \<le> level lg
                 then [(s, Sprintf rt (rendered rt lg (level_name L) (msg @ [CHR 0x0A])) [])]
                 else []),
               events := events w @
                (if L = Debug \<or> L = Trace then []
                 else (case riemannClient lg of
                         None \<Rightarrow> []
                       | Some c \<Rightarrow> [(c, \<lparr>Service = Prefix (config lg), State = level_name L,
                                        Description = Sprintf rt msg []\<rparr>)]))\<rparr>)"
proof (cases "rank L \<le> level lg")
  case True
  then have st: "stream lg = Some s" by (rule s)
  note p = printLine_world[OF d st]
  have d': "deref (w\<lparr>writes := x\<rparr>) l = Some lg" for x
    using d by (simp add: deref_writes)
  show ?thesis
    using True d
    by (cases L)
       (simp_all add: Fatalln_def Errorln_def Warnln_def Infoln_def Debugln_def Traceln_def p
          and_then_Inr sendRiemann_world[OF d'] split: option.splits)
next
  case False
  show ?thesis
    using False d
    by (cases L)
       (simp_all add: Fatalln_def Errorln_def Warnln_def Infoln_def Debugln_def Traceln_def
          and_then_Inr sendRiemann_world[OF d] split: option.splits)
qed

text \<open>A format without \<open>%\<close> is written as it is.\<close>

lemma doPrintf0_plain: "CHR ''%'' \<notin> set s \<Longrightarrow> doPrintf0 s = s"
  by (induction s) auto

lemma Sprintf_plain: "CHR ''%'' \<notin> set s \<Longrightarrow> Sprintf rt s [] = s"
  by (simp add: Sprintf_def doPrintf0_plain)

subsection \<open>The heap of loggers\<close>

lemma deref_NewLogger:
  "NewLogger U strm cfg w0 = (l, w) \<Longrightarrow>
   deref w l = Some \<lparr>stream = strm, config = cfg,
                     level = logLevelToInt U (LogLevel cfg), riemannClient = None\<rparr>
   \<and> writes w = writes w0 \<and> events w = events w0"
  by (auto simp: NewLogger_def deref_def Let_def)

lemma logLevelToInt_unrecognized:
  "ToUpper U s \<notin> set level_names \<Longrightarrow> logLevelToInt U s = - 1"
  by (simp add: logLevelToInt_def level_names_def)

lemma rank_pos: "0 < rank L"
  by (cases L) (simp_all add: level_consts)

lemma deref_append_old: "deref w l = Some lg \<Longrightarrow> deref (w\<lparr>loggers := loggers w @ [x]\<rparr>) l = Some lg"
  by (auto simp: deref_def nth_append split: if_splits)

lemma deref_append_new: "deref (w\<lparr>loggers := loggers w @ [x]\<rparr>) (length (loggers w)) = Some x"
  by (simp add: deref_def)

lemma deref_valid: "deref w l = Some lg \<Longrightarrow> l < length (loggers w)"
  by (simp add: deref_def split: if_splits)

lemma deref_update_same:
  "l < length (loggers w) \<Longrightarrow> deref (w\<lparr>loggers := (loggers w)[l := x]\<rparr>) l = Some x"
  by (simp add: deref_def)

lemma deref_update_other:
  "c \<noteq> l \<Longrightarrow> deref (w\<lparr>loggers := (loggers w)[l := x]\<rparr>) c = deref w c"
  by (simp add: deref_def)

lemma NewModule_world:
  assumes "deref w p = Some lg"
  shows "NewModule p suffix w =
         Inr (length (loggers w),
              w\<lparr>loggers := loggers w @
                 [\<lparr>stream = stream lg,
                   config = (config lg)\<lparr>Prefix := Prefix (config lg) @ suffix\<rparr>,
                   level = level lg, riemannClient = riemannClient lg\<rparr>]\<rparr>)"
  using assms by (simp add: NewModule_def Let_def)

lemma UseRiemann_world:
  assumes "deref w l = Some lg"
  shows "UseRiemann l (Some c) w =
         Inr (None, w\<lparr>loggers := (loggers w)[l := lg\<lparr>riemannClient := Some c\<rparr>]\<rparr>)"
  using assms by (simp add: UseRiemann_def)

subsection \<open>The examples\<close>

lemma svc_deref: "deref svc_world 0 = Some svc_logger"
  by (simp add: svc_world_def svc_logger_def NewLogger_def empty_world_def deref_def
      svc_config_def logLevelToInt_names)

lemma svc_world_eq: "NewLogger (\<lambda>r. r) (Some 0) svc_config empty_world = (0, svc_world)"
  by (simp add: svc_world_def NewLogger_def empty_world_def)

lemma svc_writes: "writes svc_world = []" "events svc_world = []"
  by (simp_all add: svc_world_def NewLogger_def empty_world_def)

lemma monitored_deref: "deref monitored_world 0 = Some monitored_logger"
  by (simp add: monitored_world_def deref_def)

lemma verbose_upper: "ToUpper (\<lambda>r. r) (LogLevel verbose_config) \<notin> set level_names"
  by (simp add: verbose_config_def level_names_def ToUpper_def upper_byte_def byte_def
      char_of_eq_iff take_bit_eq_mod)

lemma verbose_new: "NewLogger (\<lambda>r. r) (Some 0) verbose_config empty_world = (0, verbose_world)"
  by (simp add: verbose_world_def NewLogger_def empty_world_def)

lemma verbose_writes: "writes verbose_world = []"
  by (simp add: verbose_world_def NewLogger_def empty_world_def)

lemma parent_deref: "deref parent_world 0 = Some parent_logger"
  by (simp add: parent_world_def deref_def)

text \<open>The example worlds with a client attached are what the operations build.\<close>

lemma monitored_world_built:
  "UseRiemann 0 (Some 7) svc_world = Inr (None, monitored_world)"
  by (simp add: svc_world_def NewLogger_def UseRiemann_def deref_def empty_world_def
      monitored_world_def monitored_logger_def svc_logger_def svc_config_def logLevelToInt_names)

lemma parent_world_built:
  "\<exists>w. NewLogger U (Some 0) \<lparr>Prefix = ''svc'', LogLevel = ''INFO'', AddTimeStamp = False\<rparr>
          empty_world = (0, w)
       \<and> UseRiemann 0 (Some 1) w = Inr (None, parent_world)"
  by (simp add: NewLogger_def UseRiemann_def deref_def empty_world_def parent_world_def
      parent_logger_def logLevelToInt_names)

lemma doPrintf0_disk:
  "doPrintf0 ''WARN | svc | disk 95% full\<newline>'' = ''WARN | svc | disk 95%!f(MISSING)ull\<newline>''"
  by code_simp

text \<open>
  On a line variant that passes the console gate, with no timestamp and no \<open>%\<close> in the
  prefix or in the message, the sink receives the level name, the prefix and the message,
  separated by \<open>" | "\<close>, and a newline.
\<close>

lemma line_variant_plain:
  assumes "deref w l = Some lg" and "stream lg = Some s" and "rank L \<le> level lg"
    and "\<not> AddTimeStamp (config lg)"
    and "CHR ''%'' \<notin> set (Prefix (config lg))" and "CHR ''%'' \<notin> set msg"
  shows "\<exists>w'. emitln L rt l msg w = Inr w'
           \<and> writes w' = writes w @
               [(s, level_name L @ '' | '' @ Prefix (config lg) @ '' | '' @ msg @ [CHR 0x0A])]"
proof -
  have "CHR ''%'' \<notin> set (level_name L)" by (cases L) simp_all
  then have "CHR ''%'' \<notin> set (rendered rt lg (level_name L) (msg @ [CHR 0x0A]))"
    using assms(4,5,6) by (simp add: rendered_def)
  then have "Sprintf rt (rendered rt lg (level_name L) (msg @ [CHR 0x0A])) []
             = level_name L @ '' | '' @ Prefix (config lg) @ '' | '' @ msg @ [CHR 0x0A]"
    using assms(4) by (simp add: Sprintf_plain) (simp add: rendered_def)
  then show ?thesis
    using emitln_world[where L = L and rt = rt and msg = msg, OF assms(1), of s] assms(2,3)
    by simp
qed

subsection \<open>The claims about the operations\<close>

text \<open>
  C1. For every severity \<open>L\<close> and every logger whose resolved threshold rank is
  \<open>level lg\<close>, a console-emit call at level \<open>L\<close>, formatted or line variant, writes
  exactly one rendered line to the sink if \<open>rank L \<le> level lg\<close>, and writes nothing
  to the sink if \<open>rank L > level lg\<close>. The logger is allocated and has a sink; the one
  write is what \<open>fmt.Fprintf\<close> makes of the rendered line, taken as the format.
\<close>

theorem console_gate:
  assumes "deref w l = Some lg" and "stream lg = Some s"
  shows "(\<exists>w'. emitf L rt l msg other w = Inr w'
            \<and> writes w' = writes w @
                (if rank L \<le> level lg
                 then [(s, Sprintf rt (rendered rt lg (level_name L) msg) other)] else []))
       \<and> (\<exists>w'. emitln L rt l msg w = Inr w'
            \<and> writes w' = writes w @
                (if rank L \<le> level lg
                 then [(s, Sprintf rt (rendered rt lg (level_name L) (msg @ [CHR 0x0A])) [])]
                 else []))"
  using emitf_world[OF assms(1), of L s rt msg other] emitln_world[OF assms(1), of L s rt msg]
    assms(2)
  by simp

theorem console_gate_witness:
  "deref svc_world 0 = Some svc_logger \<and> stream svc_logger = Some 0
   \<and> (\<exists>w'. emitln Warn demo_rt 0 ''disk low'' svc_world = Inr w'
          \<and> writes w' = [(0, ''WARN | svc | disk low\<newline>'')])
   \<and> (\<exists>w'. emitln Info demo_rt 0 ''started'' svc_world = Inr w' \<and> writes w' = [])"
proof -
  have s: "stream svc_logger = Some 0" by (simp add: svc_logger_def)
  have r: "Sprintf demo_rt (rendered demo_rt svc_logger ''WARN'' (''disk low'' @ [CHR 0x0A])) []
           = ''WARN | svc | disk low\<newline>''"
    by (simp add: rendered_def svc_logger_def svc_config_def Sprintf_plain)
  show ?thesis
    using console_gate[OF svc_deref s, of Warn demo_rt "''disk low''" "[]"]
      console_gate[OF svc_deref s, of Info demo_rt "''started''" "[]"] svc_deref s r
    by (simp add: svc_writes level_consts svc_logger_def)
qed

text \<open>
  C2. For every logger with a forwarding client attached, each emit call at the levels
  Fatal, Error, Warn or Info submits exactly one event to the client, with the prefix as
  service, the level name as state and the formatted message as description, whether the
  console gate passed or not; emit calls at Debug and Trace submit no event, for any
  threshold. The description is what \<open>fmt.Sprintf\<close> makes of the message and the
  operands (none for a line variant).
\<close>

theorem forwarding_gate:
  assumes "deref w l = Some lg" and "rank L \<le> level lg \<longrightarrow> stream lg = Some s"
    and "riemannClient lg = Some c"
  shows "(\<exists>w'. emitf L rt l msg other w = Inr w'
            \<and> events w' = events w @
                (if L \<in> {Fatal, Error, Warn, Info}
                 then [(c, \<lparr>Service = Prefix (config lg), State = level_name L,
                            Description = Sprintf rt msg other\<rparr>)] else []))
       \<and> (\<exists>w'. emitln L rt l msg w = Inr w'
            \<and> events w' = events w @
                (if L \<in> {Fatal, Error, Warn, Info}
                 then [(c, \<lparr>Service = Prefix (config lg), State = level_name L,
                            Description = Sprintf rt msg []\<rparr>)] else []))"
  using emitf_world[OF assms(1), of L s rt msg other] emitln_world[OF assms(1), of L s rt msg]
    assms(2,3)
  by (cases L) simp_all

theorem forwarding_gate_witness:
  "deref monitored_world 0 = Some monitored_logger
   \<and> \<not> rank Info \<le> level monitored_logger
   \<and> riemannClient monitored_logger = Some 7
   \<and> (\<exists>w'. emitln Info demo_rt 0 ''started'' monitored_world = Inr w'
          \<and> events w' = [(7, \<lparr>Service = ''svc'', State = ''INFO'', Description = ''started''\<rparr>)])
   \<and> (\<exists>w'. emitln Debug demo_rt 0 ''probe'' monitored_world = Inr w' \<and> events w' = [])"
proof -
  have g: "\<not> rank Info \<le> level monitored_logger" "\<not> rank Debug \<le> level monitored_logger"
    by (simp_all add: monitored_logger_def svc_logger_def level_consts)
  have c: "riemannClient monitored_logger = Some 7" by (simp add: monitored_logger_def)
  have p: "Prefix (config monitored_logger) = ''svc''"
    by (simp add: monitored_logger_def svc_logger_def svc_config_def)
  have e: "events monitored_world = []" by (simp add: monitored_world_def)
  have s: "Sprintf demo_rt ''started'' [] = ''started''" by (simp add: Sprintf_plain)
  show ?thesis
    using forwarding_gate[OF monitored_deref _ c, of Info 0 demo_rt "''started''" "[]"]
      forwarding_gate[OF monitored_deref _ c, of Debug 0 demo_rt "''probe''" "[]"]
      monitored_deref g c p e s
    by simp
qed

text \<open>
  C3. The claim: with \<open>AddTimeStamp\<close> off, a line variant that passes the console gate
  writes exactly the level name, the prefix, the message and a newline, with no
  substitution performed on the message. The code hands the rendered line to
  \<open>fmt.Fprintf\<close> as the format, so a \<open>%\<close> in the message starts a directive: with
  prefix \<open>svc\<close> and level \<open>WARN\<close>, \<open>Warnln("disk 95% full")\<close> writes
  \<open>"WARN | svc | disk 95%!f(MISSING)ull\n"\<close> and not the message as it was given.
\<close>

theorem Warnln_format_reinterpreted:
  "\<exists>w'. Warnln rt 0 ''disk 95% full'' svc_world = Inr w'
      \<and> writes w' = [(0, ''WARN | svc | disk 95%!f(MISSING)ull\<newline>'')]
      \<and> writes w' \<noteq> [(0, ''WARN | svc | disk 95% full\<newline>'')]"
proof -
  have s: "rank Warn \<le> level svc_logger \<Longrightarrow> stream svc_logger = Some 0"
    by (simp add: svc_logger_def)
  have r: "Sprintf rt (rendered rt svc_logger ''WARN'' (''disk 95% full'' @ [CHR 0x0A])) []
           = ''WARN | svc | disk 95%!f(MISSING)ull\<newline>''"
    using doPrintf0_disk by (simp add: rendered_def svc_logger_def svc_config_def Sprintf_def)
  show ?thesis
    using emitln_world[where L = Warn and rt = rt and msg = "''disk 95% full''", OF svc_deref s] r
    by (simp add: svc_writes level_consts svc_logger_def)
qed

text \<open>
  C4. For every level string that upper-cases to none of the eight names, a logger
  constructed with that string writes nothing to the sink for any emit call at any
  severity, including Fatal: construction stores the rank \<open>-1\<close>, and in every world in
  which the logger has that rank both variants of every severity return without a write
  and leave the loggers as they are.
\<close>

theorem unrecognized_level_silent:
  assumes "ToUpper U (LogLevel cfg) \<notin> set level_names"
    and "NewLogger U strm cfg w0 = (l, w)"
  shows "(\<exists>lg0. deref w l = Some lg0 \<and> level lg0 = - 1) \<and>
         (\<forall>w2 lg. deref w2 l = Some lg \<and> level lg = - 1 \<longrightarrow>
            (\<exists>w'. emitf L rt l msg other w2 = Inr w' \<and> writes w' = writes w2
                   \<and> loggers w' = loggers w2)
          \<and> (\<exists>w'. emitln L rt l msg w2 = Inr w' \<and> writes w' = writes w2
                   \<and> loggers w' = loggers w2))"
proof -
  have a: "\<exists>lg0. deref w l = Some lg0 \<and> level lg0 = - 1"
    using deref_NewLogger[OF assms(2)] logLevelToInt_unrecognized[OF assms(1)] by auto
  have b: "(\<exists>w'. emitf L rt l msg other w2 = Inr w' \<and> writes w' = writes w2
                   \<and> loggers w' = loggers w2)
          \<and> (\<exists>w'. emitln L rt l msg w2 = Inr w' \<and> writes w' = writes w2
                   \<and> loggers w' = loggers w2)"
    if d: "deref w2 l = Some lg" and lv: "level lg = - 1" for w2 lg
  proof -
    have g: "\<not> rank L \<le> level lg" using rank_pos[of L] lv by simp
    then have s: "rank L \<le> level lg \<Longrightarrow> stream lg = Some 0" by simp
    show ?thesis
      using emitf_world[where L = L and rt = rt and msg = msg and other = other, OF d s]
        emitln_world[where L = L and rt = rt and msg = msg, OF d s] g
      by simp
  qed
  from a b show ?thesis by blast
qed

theorem unrecognized_level_silent_witness:
  "ToUpper (\<lambda>r. r) (LogLevel verbose_config) \<notin> set level_names
   \<and> NewLogger (\<lambda>r. r) (Some 0) verbose_config empty_world = (0, verbose_world)
   \<and> (\<exists>lg0. deref verbose_world 0 = Some lg0 \<and> level lg0 = - 1
          \<and> (\<exists>w'. emitln Fatal demo_rt 0 ''boom'' verbose_world = Inr w' \<and> writes w' = [])
          \<and> (\<exists>w'. emitf Fatal demo_rt 0 ''boom'' [] verbose_world = Inr w' \<and> writes w' = []))"
proof -
  note t = unrecognized_level_silent[OF verbose_upper verbose_new,
      of Fatal demo_rt "''boom''" "[]"]
  from t obtain lg0 where d: "deref verbose_world 0 = Some lg0" and l: "level lg0 = - 1"
    by blast
  from t d l have "(\<exists>w'. emitf Fatal demo_rt 0 ''boom'' [] verbose_world = Inr w'
                       \<and> writes w' = writes verbose_world \<and> loggers w' = loggers verbose_world)
                 \<and> (\<exists>w'. emitln Fatal demo_rt 0 ''boom'' verbose_world = Inr w'
                       \<and> writes w' = writes verbose_world \<and> loggers w' = loggers verbose_world)"
    by blast
  with d l verbose_upper verbose_new show ?thesis by (auto simp: verbose_writes)
qed

text \<open>
  C5. A child logger derived with \<open>NewModule\<close> has the parent's prefix followed by the
  suffix, with no separator; the parent is unchanged by the derivation; and the child's
  forwarding client is the one the parent had at that time: registering another client
  on the parent afterwards changes the parent only, and the child still forwards to the
  first one.
\<close>

theorem NewModule_prefix_and_snapshot:
  assumes "deref w p = Some lg"
  shows "\<exists>c w1. NewModule p suffix w = Inr (c, w1) \<and> c \<noteq> p
           \<and> deref w1 c = Some \<lparr>stream = stream lg,
                                 config = (config lg)\<lparr>Prefix := Prefix (config lg) @ suffix\<rparr>,
                                 level = level lg, riemannClient = riemannClient lg\<rparr>
           \<and> deref w1 p = Some lg
           \<and> (\<forall>f2. \<exists>w2. UseRiemann p (Some f2) w1 = Inr (None, w2)
                  \<and> deref w2 p = Some (lg\<lparr>riemannClient := Some f2\<rparr>)
                  \<and> deref w2 c = deref w1 c
                  \<and> (\<forall>f1 s L. riemannClient lg = Some f1 \<and> stream lg = Some s
                               \<and> L \<in> {Fatal, Error, Warn, Info} \<longrightarrow>
                        (\<exists>w3. emitln L rt c msg w2 = Inr w3
                           \<and> events w3 = events w @
                               [(f1, \<lparr>Service = Prefix (config lg) @ suffix,
                                      State = level_name L,
                                      Description = Sprintf rt msg []\<rparr>)])))"
proof -
  let ?c = "length (loggers w)"
  let ?child = "\<lparr>stream = stream lg,
                 config = (config lg)\<lparr>Prefix := Prefix (config lg) @ suffix\<rparr>,
                 level = level lg, riemannClient = riemannClient lg\<rparr>"
  let ?w1 = "w\<lparr>loggers := loggers w @ [?child]\<rparr>"
  have p: "p < ?c" using assms by (rule deref_valid)
  have n: "NewModule p suffix w = Inr (?c, ?w1)" by (rule NewModule_world[OF assms])
  have dc: "deref ?w1 ?c = Some ?child" by (rule deref_append_new)
  have dp: "deref ?w1 p = Some lg" using assms by (rule deref_append_old)
  have u: "\<exists>w2. UseRiemann p (Some f2) ?w1 = Inr (None, w2)
              \<and> deref w2 p = Some (lg\<lparr>riemannClient := Some f2\<rparr>)
              \<and> deref w2 ?c = deref ?w1 ?c
              \<and> (\<forall>f1 s L. riemannClient lg = Some f1 \<and> stream lg = Some s
                           \<and> L \<in> {Fatal, Error, Warn, Info} \<longrightarrow>
                    (\<exists>w3. emitln L rt ?c msg w2 = Inr w3
                       \<and> events w3 = events w @
                           [(f1, \<lparr>Service = Prefix (config lg) @ suffix,
                                  State = level_name L,
                                  Description = Sprintf rt msg []\<rparr>)]))" for f2
  proof -
    let ?w2 = "?w1\<lparr>loggers := (loggers ?w1)[p := lg\<lparr>riemannClient := Some f2\<rparr>]\<rparr>"
    have a: "UseRiemann p (Some f2) ?w1 = Inr (None, ?w2)" by (rule UseRiemann_world[OF dp])
    have b: "deref ?w2 p = Some (lg\<lparr>riemannClient := Some f2\<rparr>)"
      using deref_valid[OF dp] by (rule deref_update_same)
    have c: "deref ?w2 ?c = deref ?w1 ?c"
      using p by (intro deref_update_other) simp
    have d2: "deref ?w2 ?c = Some ?child" using c dc by simp
    have e: "\<exists>w3. emitln L rt ?c msg ?w2 = Inr w3
               \<and> events w3 = events w @
                   [(f1, \<lparr>Service = Prefix (config lg) @ suffix, State = level_name L,
                          Description = Sprintf rt msg []\<rparr>)]"
      if h: "riemannClient lg = Some f1" "stream lg = Some s" "L \<in> {Fatal, Error, Warn, Info}"
      for f1 s L
    proof -
      have st: "rank L \<le> level ?child \<Longrightarrow> stream ?child = Some s" using h(2) by simp
      have nd: "L \<noteq> Debug" "L \<noteq> Trace" using h(3) by auto
      show ?thesis
        using emitln_world[where L = L and rt = rt and msg = msg, OF d2 st] nd h(1) by simp
    qed
    from a b c e show ?thesis by blast
  qed
  have "?c \<noteq> p" using p by simp
  with n dc dp u show ?thesis by (intro exI[of _ ?c] exI[of _ ?w1]) simp
qed

theorem NewModule_prefix_and_snapshot_witness:
  "deref parent_world 0 = Some parent_logger
   \<and> (\<exists>c w1. NewModule 0 ''.db'' parent_world = Inr (c, w1) \<and> c \<noteq> 0
         \<and> (\<exists>child. deref w1 c = Some child \<and> Prefix (config child) = ''svc.db''
                \<and> riemannClient child = Some 1)
         \<and> deref w1 0 = Some parent_logger
         \<and> (\<exists>w2. UseRiemann 0 (Some 2) w1 = Inr (None, w2)
                \<and> (\<exists>parent. deref w2 0 = Some parent \<and> riemannClient parent = Some 2)
                \<and> (\<exists>child. deref w2 c = Some child \<and> riemannClient child = Some 1)
                \<and> (\<exists>w3. emitln Info demo_rt c ''started'' w2 = Inr w3
                       \<and> events w3 = [(1, \<lparr>Service = ''svc.db'', State = ''INFO'',
                                            Description = ''started''\<rparr>)])))"
proof -
  have s: "Sprintf demo_rt ''started'' [] = ''started''" by (simp add: Sprintf_plain)
  have e: "events parent_world = []" by (simp add: parent_world_def)
  have f: "riemannClient parent_logger = Some 1" "stream parent_logger = Some 0"
    "Prefix (config parent_logger) = ''svc''"
    by (simp_all add: parent_logger_def)
  from NewModule_prefix_and_snapshot[OF parent_deref, of "''.db''" demo_rt "''started''"]
  obtain c w1 where n: "NewModule 0 ''.db'' parent_world = Inr (c, w1)" and c: "c \<noteq> 0"
    and dc: "deref w1 c = Some \<lparr>stream = stream parent_logger,
               config = (config parent_logger)\<lparr>Prefix := Prefix (config parent_logger) @ ''.db''\<rparr>,
               level = level parent_logger, riemannClient = riemannClient parent_logger\<rparr>"
    and dp: "deref w1 0 = Some parent_logger"
    and u: "\<forall>f2. \<exists>w2. UseRiemann 0 (Some f2) w1 = Inr (None, w2)
                  \<and> deref w2 0 = Some (parent_logger\<lparr>riemannClient := Some f2\<rparr>)
                  \<and> deref w2 c = deref w1 c
                  \<and> (\<forall>f1 s L. riemannClient parent_logger = Some f1 \<and> stream parent_logger = Some s
                               \<and> L \<in> {Fatal, Error, Warn, Info} \<longrightarrow>
                        (\<exists>w3. emitln L demo_rt c ''started'' w2 = Inr w3
                           \<and> events w3 = events parent_world @
                               [(f1, \<lparr>Service = Prefix (config parent_logger) @ ''.db'',
                                      State = level_name L,
                                      Description = Sprintf demo_rt ''started'' []\<rparr>)]))"
    by blast
  from u obtain w2 where u2: "UseRiemann 0 (Some 2) w1 = Inr (None, w2)"
    and d2p: "deref w2 0 = Some (parent_logger\<lparr>riemannClient := Some 2\<rparr>)"
    and d2c: "deref w2 c = deref w1 c"
    and fw: "\<forall>f1 s L. riemannClient parent_logger = Some f1 \<and> stream parent_logger = Some s
                               \<and> L \<in> {Fatal, Error, Warn, Info} \<longrightarrow>
                        (\<exists>w3. emitln L demo_rt c ''started'' w2 = Inr w3
                           \<and> events w3 = events parent_world @
                               [(f1, \<lparr>Service = Prefix (config parent_logger) @ ''.db'',
                                      State = level_name L,
                                      Description = Sprintf demo_rt ''started'' []\<rparr>)])"
    by blast
  from fw f have "\<exists>w3. emitln Info demo_rt c ''started'' w2 = Inr w3
                           \<and> events w3 = events parent_world @
                               [(1, \<lparr>Service = Prefix (config parent_logger) @ ''.db'',
                                      State = level_name Info,
                                      Description = Sprintf demo_rt ''started'' []\<rparr>)]"
    by blast
  then have ev: "\<exists>w3. emitln Info demo_rt c ''started'' w2 = Inr w3
                   \<and> events w3 = [(1, \<lparr>Service = ''svc.db'', State = ''INFO'',
                                        Description = ''started''\<rparr>)]"
    using s e f by simp
  have ch: "\<exists>child. deref w1 c = Some child \<and> Prefix (config child) = ''svc.db''
                \<and> riemannClient child = Some 1"
    using dc f by simp
  have ch2: "\<exists>child. deref w2 c = Some child \<and> riemannClient child = Some 1"
    using dc d2c f by simp
  have pa: "\<exists>parent. deref w2 0 = Some parent \<and> riemannClient parent = Some 2"
    using d2p by simp
  from parent_deref n c ch dp u2 pa ch2 ev show ?thesis by blast
qed

text \<open>
  C6. \<open>UseRiemann\<close> with a \<open>nil\<close> client returns \<open>ErrClientNil\<close> and leaves the world
  as it is: a client attached before stays attached and receives the event of the next
  emit call. With a client that is not \<open>nil\<close> it succeeds and sets the logger's
  reference to that client.
\<close>

theorem UseRiemann_nil_client:
  "UseRiemann l None w = Inr (Some ErrClientNil, w)
   \<and> (\<forall>lg f1 s L. deref w l = Some lg \<and> riemannClient lg = Some f1 \<and> stream lg = Some s
                    \<and> L \<in> {Fatal, Error, Warn, Info} \<longrightarrow>
        (\<exists>w' w''. UseRiemann l None w = Inr (Some ErrClientNil, w')
           \<and> deref w' l = Some lg
           \<and> emitln L rt l msg w' = Inr w''
           \<and> events w'' = events w @
               [(f1, \<lparr>Service = Prefix (config lg), State = level_name L,
                      Description = Sprintf rt msg []\<rparr>)]))
   \<and> (\<forall>lg c. deref w l = Some lg \<longrightarrow>
        (\<exists>w'. UseRiemann l (Some c) w = Inr (None, w')
           \<and> deref w' l = Some (lg\<lparr>riemannClient := Some c\<rparr>)
           \<and> writes w' = writes w \<and> events w' = events w))"
proof -
  have a: "UseRiemann l None w = Inr (Some ErrClientNil, w)" by (simp add: UseRiemann_def)
  have b: "\<exists>w'. UseRiemann l (Some c) w = Inr (None, w')
           \<and> deref w' l = Some (lg\<lparr>riemannClient := Some c\<rparr>)
           \<and> writes w' = writes w \<and> events w' = events w" if d: "deref w l = Some lg" for lg c
    using UseRiemann_world[OF d, of c] deref_update_same[OF deref_valid[OF d]] by simp
  have c: "\<exists>w' w''. UseRiemann l None w = Inr (Some ErrClientNil, w')
           \<and> deref w' l = Some lg
           \<and> emitln L rt l msg w' = Inr w''
           \<and> events w'' = events w @
               [(f1, \<lparr>Service = Prefix (config lg), State = level_name L,
                      Description = Sprintf rt msg []\<rparr>)]"
    if h: "deref w l = Some lg" "riemannClient lg = Some f1" "stream lg = Some s"
      "L \<in> {Fatal, Error, Warn, Info}" for lg f1 s L
  proof -
    have st: "rank L \<le> level lg \<Longrightarrow> stream lg = Some s" using h(3) by simp
    have nd: "L \<noteq> Debug" "L \<noteq> Trace" using h(4) by auto
    show ?thesis
      using a h(1) emitln_world[where L = L and rt = rt and msg = msg, OF h(1) st] nd h(2)
      by simp
  qed
  from a b c show ?thesis by blast
qed

theorem UseRiemann_nil_client_witness:
  "deref parent_world 0 = Some parent_logger \<and> riemannClient parent_logger = Some 1
   \<and> (\<exists>w' w''. UseRiemann 0 None parent_world = Inr (Some ErrClientNil, w')
          \<and> deref w' 0 = Some parent_logger
          \<and> emitln Info demo_rt 0 ''started'' w' = Inr w''
          \<and> events w'' = [(1, \<lparr>Service = ''svc'', State = ''INFO'',
                               Description = ''started''\<rparr>)])
   \<and> (\<exists>w'. UseRiemann 0 (Some 2) parent_world = Inr (None, w')
          \<and> deref w' 0 = Some (parent_logger\<lparr>riemannClient := Some 2\<rparr>))"
proof -
  have s: "Sprintf demo_rt ''started'' [] = ''started''" by (simp add: Sprintf_plain)
  have e: "events parent_world = []" by (simp add: parent_world_def)
  have f: "riemannClient parent_logger = Some 1" "stream parent_logger = Some 0"
    "Prefix (config parent_logger) = ''svc''"
    by (simp_all add: parent_logger_def)
  note t = UseRiemann_nil_client[of 0 parent_world demo_rt "''started''"]
  have m: "Info \<in> {Fatal, Error, Warn, Info}" by simp
  from t parent_deref f m
  have a: "\<exists>w' w''. UseRiemann 0 None parent_world = Inr (Some ErrClientNil, w')
           \<and> deref w' 0 = Some parent_logger
           \<and> emitln Info demo_rt 0 ''started'' w' = Inr w''
           \<and> events w'' = events parent_world @
               [(1, \<lparr>Service = Prefix (config parent_logger), State = level_name Info,
                      Description = Sprintf demo_rt ''started'' []\<rparr>)]"
    by blast
  from t parent_deref
  have b: "\<exists>w'. UseRiemann 0 (Some 2) parent_world = Inr (None, w')
          \<and> deref w' 0 = Some (parent_logger\<lparr>riemannClient := Some 2\<rparr>)"
    by blast
  from a b parent_deref f s e show ?thesis by simp
qed

text \<open>
  C10. A logger constructed with an unrecognized level name is silent on the console
  only: once a forwarding client is attached, emit calls at Fatal, Error, Warn and Info
  still submit an event to the client, while nothing is written to the sink.
\<close>

theorem unrecognized_level_still_forwards:
  assumes "ToUpper U (LogLevel cfg) \<notin> set level_names"
    and "NewLogger U strm cfg w0 = (l, w1)"
    and "L \<in> {Fatal, Error, Warn, Info}"
  shows "\<exists>w2. UseRiemann l (Some c) w1 = Inr (None, w2)
           \<and> (\<exists>w3. emitf L rt l msg other w2 = Inr w3 \<and> writes w3 = writes w0
                  \<and> events w3 = events w0 @
                      [(c, \<lparr>Service = Prefix cfg, State = level_name L,
                            Description = Sprintf rt msg other\<rparr>)])
           \<and> (\<exists>w3. emitln L rt l msg w2 = Inr w3 \<and> writes w3 = writes w0
                  \<and> events w3 = events w0 @
                      [(c, \<lparr>Service = Prefix cfg, State = level_name L,
                            Description = Sprintf rt msg []\<rparr>)])"
proof -
  let ?lg = "\<lparr>stream = strm, config = cfg, level = logLevelToInt U (LogLevel cfg),
              riemannClient = None\<rparr>"
  let ?lg2 = "?lg\<lparr>riemannClient := Some c\<rparr>"
  let ?w2 = "w1\<lparr>loggers := (loggers w1)[l := ?lg2]\<rparr>"
  have d1: "deref w1 l = Some ?lg" and wr: "writes w1 = writes w0" and ev: "events w1 = events w0"
    using deref_NewLogger[OF assms(2)] by simp_all
  have u: "UseRiemann l (Some c) w1 = Inr (None, ?w2)" by (rule UseRiemann_world[OF d1])
  have d2: "deref ?w2 l = Some ?lg2" using deref_valid[OF d1] by (rule deref_update_same)
  have lv: "level ?lg2 = - 1" using logLevelToInt_unrecognized[OF assms(1)] by simp
  have g: "\<not> rank L \<le> level ?lg2" using rank_pos[of L] lv by simp
  then have s: "rank L \<le> level ?lg2 \<Longrightarrow> stream ?lg2 = Some 0" by simp
  have nd: "L \<noteq> Debug" "L \<noteq> Trace" using assms(3) by auto
  have f: "\<exists>w3. emitf L rt l msg other ?w2 = Inr w3 \<and> writes w3 = writes w0
                  \<and> events w3 = events w0 @
                      [(c, \<lparr>Service = Prefix cfg, State = level_name L,
                            Description = Sprintf rt msg other\<rparr>)]"
    using emitf_world[where L = L and rt = rt and msg = msg and other = other, OF d2 s] g nd wr ev
    by simp
  have n: "\<exists>w3. emitln L rt l msg ?w2 = Inr w3 \<and> writes w3 = writes w0
                  \<and> events w3 = events w0 @
                      [(c, \<lparr>Service = Prefix cfg, State = level_name L,
                            Description = Sprintf rt msg []\<rparr>)]"
    using emitln_world[where L = L and rt = rt and msg = msg, OF d2 s] g nd wr ev
    by simp
  from u f n show ?thesis by blast
qed

theorem unrecognized_level_still_forwards_witness:
  "ToUpper (\<lambda>r. r) (LogLevel verbose_config) \<notin> set level_names
   \<and> NewLogger (\<lambda>r. r) (Some 0) verbose_config empty_world = (0, verbose_world)
   \<and> Fatal \<in> {Fatal, Error, Warn, Info}
   \<and> (\<exists>w2. UseRiemann 0 (Some 7) verbose_world = Inr (None, w2)
         \<and> (\<exists>w3. emitln Fatal demo_rt 0 ''boom'' w2 = Inr w3 \<and> writes w3 = []
                \<and> events w3 = [(7, \<lparr>Service = ''svc'', State = ''FATAL'',
                                     Description = ''boom''\<rparr>)]))"
proof -
  have m: "Fatal \<in> {Fatal, Error, Warn, Info}" by simp
  have s: "Sprintf demo_rt ''boom'' [] = ''boom''" by (simp add: Sprintf_plain)
  have e: "writes empty_world = []" "events empty_world = []" by (simp_all add: empty_world_def)
  have p: "Prefix verbose_config = ''svc''" by (simp add: verbose_config_def)
  show ?thesis
    using unrecognized_level_still_forwards[OF verbose_upper verbose_new m,
        of 7 demo_rt "''boom''" "[]"] verbose_upper verbose_new s e p
    by auto
qed

end
